theory Spec2Isabelle
  imports Main
begin

unbundle bit_operations_syntax

section \<open>Python values used by termrender/window.py\<close>

text \<open>
  A Python \<open>str\<close> is a sequence of Unicode code points, and \<open>len\<close> counts code
  points; the glyphs the renderer emits (the solid block U+2588, the braille block
  U+2800..U+28FF) are outside the byte range of HOL's \<open>char\<close>. A string is therefore a
  list of code points.
\<close>

type_synonym ustr = "nat list"

definition ascii :: "string \<Rightarrow> ustr" where
  "ascii s = map of_char s"

definition ESC :: nat where
  "ESC = 27"

definition block :: ustr where
  "block = [0x2588]"

definition space :: ustr where
  "space = ascii '' ''"

text \<open>The exceptions that the methods of \<open>Window\<close> can raise.\<close>

datatype error =
    NotImplementedError
  | IndexError
  | TypeError
  | ZeroDivisionError
  | ValueError
  | OverflowError

definition ebind :: "error + 'a \<Rightarrow> ('a \<Rightarrow> error + 'b) \<Rightarrow> error + 'b" where
  "ebind m f = (case m of Inl e \<Rightarrow> Inl e | Inr a \<Rightarrow> f a)"

text \<open>
  \<open>xs[i]\<close> on a Python list: a negative index counts from the end, and an index
  outside the list raises \<open>IndexError\<close>.
\<close>

definition getitem :: "'a list \<Rightarrow> int \<Rightarrow> error + 'a" where
  "getitem xs i =
     (if 0 \<le> i \<and> i < int (length xs) then Inr (xs ! nat i)
      else if i < 0 \<and> - int (length xs) \<le> i then Inr (xs ! nat (int (length xs) + i))
      else Inl IndexError)"

text \<open>\<open>xs[i] = v\<close> on a Python list, with the same index rule.\<close>

definition setitem :: "'a list \<Rightarrow> int \<Rightarrow> 'a \<Rightarrow> error + 'a list" where
  "setitem xs i v =
     (if 0 \<le> i \<and> i < int (length xs) then Inr (xs[nat i := v])
      else if i < 0 \<and> - int (length xs) \<le> i then Inr (xs[nat (int (length xs) + i) := v])
      else Inl IndexError)"

text \<open>
  \<open>chr(n)\<close>: the argument is read as a C int (\<open>OverflowError\<close> beyond 32 bits) and
  must be a code point (\<open>ValueError\<close> outside \<open>range(0x110000)\<close>).
\<close>

definition chr :: "int \<Rightarrow> error + nat" where
  "chr n =
     (if n < - (2 ^ 31) \<or> 2 ^ 31 \<le> n then Inl OverflowError
      else if n < 0 \<or> 0x110000 \<le> n then Inl ValueError
      else Inr (nat n))"

text \<open>\<open>range(0, n, k)\<close> for a positive step \<open>k\<close>.\<close>

definition range_step :: "nat \<Rightarrow> nat \<Rightarrow> nat list" where
  "range_step n k = map (\<lambda>i. i * k) [0..<(n + k - 1) div k]"

text \<open>The decimal text of an integer, as an f-string field \<open>{red}\<close> formats it.\<close>

fun digits :: "nat \<Rightarrow> ustr" where
  "digits n = (if n < 10 then [48 + n] else digits (n div 10) @ [48 + n mod 10])"

declare digits.simps [simp del]

definition str_int :: "int \<Rightarrow> ustr" where
  "str_int i = (if i < 0 then 45 # digits (nat (- i)) else digits (nat i))"

section \<open>Mode and palette tables\<close>

text \<open>
  Modelled from the spec: \<open>termrender/types.py\<close>, which declares \<open>Mode\<close>, is not among
  the source files. The spec describes it as a set of orthogonal flags, combinable
  bitwise, drawn from \<open>bw\<close>, \<open>high_res\<close>, \<open>monochrome\<close>, \<open>palette4\<close> and \<open>palette8\<close>.
  A mode is the set of its flags: \<open>a | b\<close> is the union, \<open>a & b\<close> the intersection,
  and a flag value is true when it is not empty.
\<close>

datatype flag = bw | high_res | monochrome | palette4 | palette8

type_synonym Mode = "flag set"

definition truthy :: "Mode \<Rightarrow> bool" where
  "truthy m = (m \<noteq> {})"

text \<open>
  Modelled from the spec: \<open>termrender/palette.py\<close>, which holds the three tables of
  colour escape strings, is not among the source files either; the spec calls them
  three fixed ordered sequences of terminal colour-escape strings. They are a parameter
  of \<open>initialize\<close>.
\<close>

record Palette =
  pal_monochrome :: "ustr list"
  pal_palette4 :: "ustr list"
  pal_palette8 :: "ustr list"

section \<open>The Window class\<close>

text \<open>
  The class attributes of \<open>Window\<close>. The terminal size comes from
  \<open>os.get_terminal_size()\<close> (or is 120 by 30), so the four dimensions are natural
  numbers. \<open>stdout\<close> is the stream \<open>print\<close> writes to, as the list of the strings
  written so far.
\<close>

record Window =
  mode :: "Mode option"
  terminal_width :: nat
  terminal_height :: nat
  width :: nat
  height :: nat
  disp_buffer :: "int list"
  palette :: "ustr list"
  stdout :: "ustr list"

text \<open>The class as its body leaves it, before any call.\<close>

definition Window0 :: "nat \<Rightarrow> nat \<Rightarrow> Window" where
  "Window0 tw th =
     \<lparr>mode = None, terminal_width = tw, terminal_height = th, width = tw, height = th,
      disp_buffer = [], palette = [], stdout = []\<rparr>"

text \<open>
  Every method returns the exception it raised, if any, and the class state it leaves.
  \<open>initialize\<close> assigns the mode before it checks it, so a rejected mode stays set.
  The screen clear runs in a child process and is not part of the state.
\<close>

definition initialize :: "Palette \<Rightarrow> Mode \<Rightarrow> Window \<Rightarrow> error option \<times> Window" where
  "initialize tables m w0 =
     (let w1 = w0\<lparr>mode := Some m\<rparr> in
      if \<not> truthy (m \<inter> {bw}) \<and> truthy (m \<inter> {high_res}) then (Some NotImplementedError, w1)
      else
        let w2 = w1\<lparr>width := (if \<not> truthy (m \<inter> {high_res}) then terminal_width w1
                                else terminal_width w1 * 2)\<rparr>;
            w3 = w2\<lparr>height := (if \<not> truthy (m \<inter> {high_res}) then terminal_height w2
                                 else terminal_height w2 * 4)\<rparr>;
            w4 = w3\<lparr>disp_buffer := map (\<lambda>_. 0) [0..<width w3 * height w3]\<rparr>;
            w5 = (if truthy (m \<inter> {monochrome}) then w4\<lparr>palette := pal_monochrome tables\<rparr>
                  else if truthy (m \<inter> {palette4}) then w4\<lparr>palette := pal_palette4 tables\<rparr>
                  else if truthy (m \<inter> {palette8}) then w4\<lparr>palette := pal_palette8 tables\<rparr>
                  else w4\<lparr>palette := []\<rparr>)
        in (None, w5\<lparr>stdout := stdout w5 @ [ESC # ascii ''[?25l'']\<rparr>))"

definition plot :: "int \<Rightarrow> int \<Rightarrow> int \<Rightarrow> Window \<Rightarrow> error option \<times> Window" where
  "plot x y val w =
     (if 0 < x \<and> x < int (width w) \<and> 0 < y \<and> y < int (height w) then
        (case setitem (disp_buffer w) (x + y * int (width w)) val of
           Inl e \<Rightarrow> (Some e, w)
         | Inr b \<Rightarrow> (None, w\<lparr>disp_buffer := b\<rparr>))
      else (None, w))"

definition copy_buffer :: "int list \<Rightarrow> Window \<Rightarrow> error option \<times> Window" where
  "copy_buffer buf w =
     (if length buf \<noteq> width w * height w then (Some IndexError, w)
      else (None, w\<lparr>disp_buffer := buf\<rparr>))"

definition clear :: "Window \<Rightarrow> error option \<times> Window" where
  "clear w = (None, w\<lparr>disp_buffer := map (\<lambda>_. 0) [0..<width w * height w]\<rparr>)"

subsection \<open>Rendering\<close>

text \<open>The braille byte of the tile whose top left pixel has index \<open>idx\<close>.\<close>

definition braille_at :: "int list \<Rightarrow> nat \<Rightarrow> nat \<Rightarrow> error + int" where
  "braille_at buf w idx =
     ebind (getitem buf (int idx)) (\<lambda>p00.
     ebind (getitem buf (int (idx + 1))) (\<lambda>p10.
     ebind (getitem buf (int (idx + w))) (\<lambda>p01.
     ebind (getitem buf (int (idx + 1 + w))) (\<lambda>p11.
     ebind (getitem buf (int (idx + w * 2))) (\<lambda>p02.
     ebind (getitem buf (int (idx + 1 + w * 2))) (\<lambda>p12.
     ebind (getitem buf (int (idx + w * 3))) (\<lambda>p03.
     ebind (getitem buf (int (idx + 1 + w * 3))) (\<lambda>p13.
       Inr ((p00 + push_bit 3 p10) +
            push_bit 1 p01 + push_bit 4 p11 +
            push_bit 2 p02 + push_bit 5 p12 +
            push_bit 6 p03 + push_bit 7 p13)))))))))"

text \<open>The inner loop \<open>for xo in range(0, cls._width, 2)\<close>.\<close>

fun braille_row :: "int list \<Rightarrow> nat \<Rightarrow> nat \<Rightarrow> nat list \<Rightarrow> ustr \<Rightarrow> error + ustr" where
  "braille_row buf w yo [] output = Inr output"
| "braille_row buf w yo (xo # xos) output =
     (case braille_at buf w (xo + yo * w) of
        Inl e \<Rightarrow> Inl e
      | Inr braille \<Rightarrow>
          (case chr (braille + 0x2800) of
             Inl e \<Rightarrow> Inl e
           | Inr c \<Rightarrow> braille_row buf w yo xos (output @ [c])))"

text \<open>The outer loop \<open>for yo in range(0, cls._height, 4)\<close>.\<close>

fun braille_rows :: "int list \<Rightarrow> nat \<Rightarrow> nat list \<Rightarrow> ustr \<Rightarrow> error + ustr" where
  "braille_rows buf w [] output = Inr output"
| "braille_rows buf w (yo # yos) output =
     (case braille_row buf w yo (range_step w 2) output of
        Inl e \<Rightarrow> Inl e
      | Inr output' \<Rightarrow> braille_rows buf w yos output')"

text \<open>The loop of the indexed modes, with its variables \<open>prev_val\<close> and \<open>output\<close>.\<close>

fun indexed_loop :: "ustr list \<Rightarrow> int list \<Rightarrow> int \<Rightarrow> ustr \<Rightarrow> error + ustr" where
  "indexed_loop pal [] prev_val output = Inr output"
| "indexed_loop pal (v # vs) prev_val output =
     (if length pal = 0 then Inl ZeroDivisionError
      else
        let val = v mod int (length pal) in
        if val = 0 then indexed_loop pal vs prev_val (output @ space)
        else if val \<noteq> prev_val then
          (case getitem pal val of
             Inl e \<Rightarrow> Inl e
           | Inr s \<Rightarrow> indexed_loop pal vs val (output @ s @ block))
        else indexed_loop pal vs prev_val (output @ block))"

text \<open>The f-string \<open>'\33[38;2;{red};{green};{blue}m'\<close> followed by the block glyph.\<close>

definition truecolor :: "int \<Rightarrow> int \<Rightarrow> int \<Rightarrow> ustr" where
  "truecolor red green blue =
     ESC # ascii ''[38;2;'' @ str_int red @ ascii '';'' @ str_int green @ ascii '';''
       @ str_int blue @ ascii ''m'' @ block"

text \<open>The loop of the RGB mode.\<close>

fun rgb_loop :: "int list \<Rightarrow> int \<Rightarrow> ustr \<Rightarrow> ustr" where
  "rgb_loop [] prev_val output = output"
| "rgb_loop (val # vs) prev_val output =
     (if val = 0 then rgb_loop vs prev_val (output @ space)
      else if val \<noteq> prev_val then
        (let red = drop_bit 16 val;
             green = (drop_bit 8 val) AND 0xff;
             blue = val AND 0xff
         in rgb_loop vs val (output @ truecolor red green blue))
      else rgb_loop vs prev_val (output @ block))"

text \<open>
  The string \<open>update\<close> builds in \<open>output\<close>. Reading \<open>cls._mode & Mode.bw\<close> while the
  mode is still \<open>None\<close> raises \<open>TypeError\<close>.
\<close>

definition update_output :: "Window \<Rightarrow> error + ustr" where
  "update_output w =
     (let output = ESC # ascii ''[H'' in
      case mode w of
        None \<Rightarrow> Inl TypeError
      | Some m \<Rightarrow>
          if truthy (m \<inter> {bw}) then
            if \<not> truthy (m \<inter> {high_res}) then
              Inr (output @ concat (map (\<lambda>x. if x = 0 then space else block) (disp_buffer w)))
            else braille_rows (disp_buffer w) (width w) (range_step (height w) 4) output
          else if truthy (m \<inter> ({monochrome} \<union> {palette4} \<union> {palette8})) then
            indexed_loop (palette w) (disp_buffer w) (- 1) output
          else Inr (rgb_loop (disp_buffer w) (- 1) output))"

text \<open>
  \<open>update\<close> itself: the string is printed once, with no line end, if it was built.
  How the stream encodes the code points is outside the model.
\<close>

definition update :: "Window \<Rightarrow> error option \<times> Window" where
  "update w =
     (case update_output w of
        Inl e \<Rightarrow> (Some e, w)
      | Inr output \<Rightarrow> (None, w\<lparr>stdout := stdout w @ [output]\<rparr>))"

section \<open>Auxiliary notions for the properties\<close>

text \<open>
  The state a successful \<open>initialize\<close> leaves, and every later call keeps: the buffer
  holds one value per cell of the virtual grid.
\<close>

definition initialized :: "Window \<Rightarrow> bool" where
  "initialized w = (length (disp_buffer w) = width w * height w)"

text \<open>Sample palette tables for the concrete evaluations; the real ones are not at hand.\<close>

definition sample_tables :: Palette where
  "sample_tables =
     \<lparr>pal_monochrome = [ascii ''a0'', ascii ''a1''],
      pal_palette4 = [ascii ''b0'', ascii ''b1'', ascii ''b2'', ascii ''b3''],
      pal_palette8 = [ascii ''c0'', ascii ''c1'', ascii ''c2'', ascii ''c3'',
                      ascii ''c4'', ascii ''c5'', ascii ''c6'', ascii ''c7'']\<rparr>"

text \<open>A window of 4 by 2 cells in plain \<open>bw\<close> mode, all pixels 0.\<close>

definition bw_window :: Window where
  "bw_window =
     \<lparr>mode = Some {bw}, terminal_width = 4, terminal_height = 2, width = 4, height = 2,
      disp_buffer = [0, 0, 0, 0, 0, 0, 0, 0], palette = [],
      stdout = [ESC # ascii ''[?25l'']\<rparr>"

text \<open>
  The condition of the specification for a rejected mode, in its words: \<open>high_res\<close>
  requested together with a colour flag other than \<open>bw\<close>.
\<close>

definition high_res_with_color :: "Mode \<Rightarrow> bool" where
  "high_res_with_color m =
     (truthy (m \<inter> {high_res}) \<and> truthy (m \<inter> {monochrome, palette4, palette8}))"

text \<open>A window of one terminal cell in \<open>bw | high_res\<close> mode: one braille tile.\<close>

definition braille_window :: Window where
  "braille_window =
     \<lparr>mode = Some {bw, high_res}, terminal_width = 1, terminal_height = 1, width = 2, height = 4,
      disp_buffer = [0, 0, 0, 0, 0, 0, 0, 0], palette = [],
      stdout = [ESC # ascii ''[?25l'']\<rparr>"

text \<open>The cursor-home sequence \<open>'\33[H'\<close> every frame starts with.\<close>

definition home :: ustr where
  "home = ESC # ascii ''[H''"

text \<open>
  The value \<open>prev_val\<close> holds when a loop of \<open>update\<close> reaches a pixel: the last
  nonzero value among the pixels before it, or the value \<open>d\<close> the variable started
  with when there is none.
\<close>

definition prev_nonzero :: "int \<Rightarrow> int list \<Rightarrow> int" where
  "prev_nonzero d xs =
     (if filter (\<lambda>r. r \<noteq> 0) xs = [] then d else last (filter (\<lambda>r. r \<noteq> 0) xs))"

text \<open>Pixel \<open>i\<close> gets a colour escape: it is nonzero and differs from the previous one.\<close>

definition escape_at :: "int \<Rightarrow> int list \<Rightarrow> nat \<Rightarrow> bool" where
  "escape_at d rs i = (rs ! i \<noteq> 0 \<and> rs ! i \<noteq> prev_nonzero d (take i rs))"

text \<open>What an indexed mode prints for pixel \<open>i\<close> of the reduced values \<open>rs\<close>.\<close>

definition indexed_piece :: "ustr list \<Rightarrow> int \<Rightarrow> int list \<Rightarrow> nat \<Rightarrow> ustr" where
  "indexed_piece pal d rs i =
     (if rs ! i = 0 then space
      else if escape_at d rs i then pal ! nat (rs ! i) @ block
      else block)"

text \<open>The pixel values modulo the palette length.\<close>

definition reduced :: "ustr list \<Rightarrow> int list \<Rightarrow> int list" where
  "reduced pal buf = map (\<lambda>v. v mod int (length pal)) buf"

text \<open>What the full-colour mode prints for pixel \<open>i\<close> of the values \<open>vs\<close>.\<close>

definition rgb_piece :: "int \<Rightarrow> int list \<Rightarrow> nat \<Rightarrow> ustr" where
  "rgb_piece d vs i =
     (if vs ! i = 0 then space
      else if escape_at d vs i then
        truecolor (drop_bit 16 (vs ! i)) (drop_bit 8 (vs ! i) AND 0xff) (vs ! i AND 0xff)
      else block)"

text \<open>A window of 2 by 2 cells in \<open>palette4\<close> mode holding the buffer \<open>[2, 2, 0, 3]\<close>.\<close>

definition palette4_window :: Window where
  "palette4_window =
     \<lparr>mode = Some {palette4}, terminal_width = 2, terminal_height = 2, width = 2, height = 2,
      disp_buffer = [2, 2, 0, 3],
      palette = [ascii ''b0'', ascii ''b1'', ascii ''b2'', ascii ''b3''],
      stdout = [ESC # ascii ''[?25l'']\<rparr>"

text \<open>The red channel as the specification words it: the shifted value, masked.\<close>

definition red_spec :: "int \<Rightarrow> int" where
  "red_spec val = drop_bit 16 val AND 0xFF"

text \<open>A window of 2 by 2 cells in full-colour mode (no flag set).\<close>

definition rgb_window :: Window where
  "rgb_window =
     \<lparr>mode = Some {}, terminal_width = 2, terminal_height = 2, width = 2, height = 2,
      disp_buffer = [0xFF0000, 0xFF0000, 0, 0x1000000], palette = [],
      stdout = [ESC # ascii ''[?25l'']\<rparr>"

text \<open>
  The braille packing as the specification words it. \<open>lit\<close> is the truthiness of the
  pixel in column \<open>x\<close> and row \<open>y\<close>, as 0 or 1.
\<close>

definition lit :: "int list \<Rightarrow> nat \<Rightarrow> nat \<Rightarrow> nat \<Rightarrow> nat" where
  "lit buf w x y = (if buf ! (x + y * w) \<noteq> 0 then 1 else 0)"

text \<open>The packed byte of the tile with origin \<open>(xo, yo)\<close>, bit by bit.\<close>

definition tile_byte :: "int list \<Rightarrow> nat \<Rightarrow> nat \<Rightarrow> nat \<Rightarrow> nat" where
  "tile_byte buf w xo yo =
     lit buf w xo yo * 2 ^ 0 + lit buf w (xo + 1) yo * 2 ^ 3 +
     lit buf w xo (yo + 1) * 2 ^ 1 + lit buf w (xo + 1) (yo + 1) * 2 ^ 4 +
     lit buf w xo (yo + 2) * 2 ^ 2 + lit buf w (xo + 1) (yo + 2) * 2 ^ 5 +
     lit buf w xo (yo + 3) * 2 ^ 6 + lit buf w (xo + 1) (yo + 3) * 2 ^ 7"

text \<open>One code point \<open>0x2800 + packed_byte\<close> per tile, rows of tiles from the top.\<close>

definition braille_body :: "int list \<Rightarrow> nat \<Rightarrow> nat \<Rightarrow> ustr" where
  "braille_body buf w h =
     concat (map (\<lambda>ty. map (\<lambda>tx. 0x2800 + tile_byte buf w (tx * 2) (ty * 4)) [0..<w div 2])
       [0..<h div 4])"

text \<open>A buffer whose pixels are all 0 or 1.\<close>

definition binary :: "int list \<Rightarrow> bool" where
  "binary buf = list_all (\<lambda>v. v = 0 \<or> v = 1) buf"

section \<open>Properties\<close>

subsection \<open>Basic facts\<close>

lemma bw_window_initialize:
  "initialize sample_tables {bw} (Window0 4 2) = (None, bw_window)"
  by (simp add: initialize_def Window0_def bw_window_def truthy_def upt_rec)

lemma bw_window_initialized: "initialized bw_window"
  by (simp add: initialized_def bw_window_def)

lemma cell_index_in_range:
  fixes x y :: int and W H :: nat
  assumes "0 < x" "x < int W" "0 < y" "y < int H"
  shows "0 \<le> x + y * int W" and "x + y * int W < int (W * H)"
proof -
  show "0 \<le> x + y * int W" using assms by simp
  have "y + 1 \<le> int H" using assms by simp
  then have "(y + 1) * int W \<le> int H * int W"
    by (rule mult_right_mono) simp
  then have "y * int W + int W \<le> int H * int W"
    by (simp add: algebra_simps)
  with assms show "x + y * int W < int (W * H)"
    by (simp add: algebra_simps)
qed

lemma plot_inside:
  assumes "initialized w" "0 < x" "x < int (width w)" "0 < y" "y < int (height w)"
  shows "plot x y v w =
           (None, w\<lparr>disp_buffer := (disp_buffer w)[nat (x + y * int (width w)) := v]\<rparr>)"
    and "nat (x + y * int (width w)) < length (disp_buffer w)"
proof -
  from assms have len: "int (length (disp_buffer w)) = int (width w * height w)"
    by (simp add: initialized_def)
  from cell_index_in_range[OF assms(2-5)]
  have r: "0 \<le> x + y * int (width w)" "x + y * int (width w) < int (length (disp_buffer w))"
    using len by simp_all
  then show "nat (x + y * int (width w)) < length (disp_buffer w)" by linarith
  from r assms(2-5)
  show "plot x y v w =
          (None, w\<lparr>disp_buffer := (disp_buffer w)[nat (x + y * int (width w)) := v]\<rparr>)"
    by (simp add: plot_def setitem_def)
qed

lemma plot_outside:
  assumes "\<not> (0 < x \<and> x < int (width w) \<and> 0 < y \<and> y < int (height w))"
  shows "plot x y v w = (None, w)"
  using assms by (auto simp: plot_def)

lemma initialize_dims:
  assumes "fst (initialize tables m w0) = None"
  shows "width (snd (initialize tables m w0)) =
           (if high_res \<in> m then terminal_width w0 * 2 else terminal_width w0)"
    and "height (snd (initialize tables m w0)) =
           (if high_res \<in> m then terminal_height w0 * 4 else terminal_height w0)"
    and "terminal_width (snd (initialize tables m w0)) = terminal_width w0"
    and "terminal_height (snd (initialize tables m w0)) = terminal_height w0"
    and "mode (snd (initialize tables m w0)) = Some m"
    and "disp_buffer (snd (initialize tables m w0)) =
          replicate (width (snd (initialize tables m w0)) * height (snd (initialize tables m w0))) 0"
  using assms by (auto simp: initialize_def truthy_def Let_def map_replicate_const)

subsection \<open>\<open>plot\<close>\<close>

text \<open>
  Claim C3. On an initialized window, \<open>plot(x, y, v)\<close> with \<open>1 \<le> x < width\<close> and
  \<open>1 \<le> y < height\<close> raises nothing and stores \<open>v\<close> at index \<open>x + y * width\<close>, which is
  inside the buffer; every other element, the length and every other attribute stay as
  they were. With \<open>x\<close> or \<open>y\<close> at 0, below 0, or at or beyond the width or height, the
  call raises nothing and leaves the whole state as it was.
\<close>

theorem plot_sets_exactly_one_cell:
  assumes "initialized w"
  shows "(1 \<le> x \<and> x < int (width w) \<and> 1 \<le> y \<and> y < int (height w) \<longrightarrow>
           fst (plot x y v w) = None
           \<and> snd (plot x y v w) =
               w\<lparr>disp_buffer := (disp_buffer w)[nat (x + y * int (width w)) := v]\<rparr>
           \<and> nat (x + y * int (width w)) < length (disp_buffer w)
           \<and> disp_buffer (snd (plot x y v w)) ! nat (x + y * int (width w)) = v
           \<and> (\<forall>j. j \<noteq> nat (x + y * int (width w)) \<longrightarrow>
                 disp_buffer (snd (plot x y v w)) ! j = disp_buffer w ! j)
           \<and> length (disp_buffer (snd (plot x y v w))) = length (disp_buffer w))
       \<and> (x \<le> 0 \<or> y \<le> 0 \<or> int (width w) \<le> x \<or> int (height w) \<le> y \<longrightarrow>
           plot x y v w = (None, w))"
proof (intro conjI impI)
  assume "x \<le> 0 \<or> y \<le> 0 \<or> int (width w) \<le> x \<or> int (height w) \<le> y"
  then show "plot x y v w = (None, w)" by (intro plot_outside) auto
next
  assume b: "1 \<le> x \<and> x < int (width w) \<and> 1 \<le> y \<and> y < int (height w)"
  then have b': "0 < x" "x < int (width w)" "0 < y" "y < int (height w)" by auto
  note p = plot_inside(1)[OF assms b', of v] plot_inside(2)[OF assms b']
  show "fst (plot x y v w) = None" by (simp add: p)
  show "snd (plot x y v w) =
          w\<lparr>disp_buffer := (disp_buffer w)[nat (x + y * int (width w)) := v]\<rparr>"
    by (simp add: p)
  show "nat (x + y * int (width w)) < length (disp_buffer w)" by (rule p)
  show "disp_buffer (snd (plot x y v w)) ! nat (x + y * int (width w)) = v"
    using p(2) by (simp add: p(1))
  show "\<forall>j. j \<noteq> nat (x + y * int (width w)) \<longrightarrow>
           disp_buffer (snd (plot x y v w)) ! j = disp_buffer w ! j"
    by (simp add: p(1))
  show "length (disp_buffer (snd (plot x y v w))) = length (disp_buffer w)"
    by (simp add: p(1))
qed

theorem plot_sets_exactly_one_cell_witness:
  "initialized bw_window
   \<and> plot 1 1 7 bw_window = (None, bw_window\<lparr>disp_buffer := [0, 0, 0, 0, 0, 7, 0, 0]\<rparr>)
   \<and> plot 0 1 7 bw_window = (None, bw_window)
   \<and> plot 1 0 7 bw_window = (None, bw_window)
   \<and> plot 4 1 7 bw_window = (None, bw_window)
   \<and> plot 1 (- 1) 7 bw_window = (None, bw_window)"
proof -
  have w: "width bw_window = 4" "height bw_window = 2"
    "disp_buffer bw_window = [0, 0, 0, 0, 0, 0, 0, 0]"
    by (simp_all add: bw_window_def)
  have "plot 1 1 7 bw_window = (None, bw_window\<lparr>disp_buffer := [0, 0, 0, 0, 0, 7, 0, 0]\<rparr>)"
    using plot_sets_exactly_one_cell[OF bw_window_initialized, of 1 1 7]
    by (simp add: w prod_eq_iff)
  moreover have "plot 0 1 7 bw_window = (None, bw_window)"
    using plot_sets_exactly_one_cell[OF bw_window_initialized, of 0 1 7] by simp
  moreover have "plot 1 0 7 bw_window = (None, bw_window)"
    using plot_sets_exactly_one_cell[OF bw_window_initialized, of 1 0 7] by simp
  moreover have "plot 4 1 7 bw_window = (None, bw_window)"
    using plot_sets_exactly_one_cell[OF bw_window_initialized, of 4 1 7] by (simp add: w)
  moreover have "plot 1 (- 1) 7 bw_window = (None, bw_window)"
    using plot_sets_exactly_one_cell[OF bw_window_initialized, of 1 "- 1" 7] by simp
  ultimately show ?thesis using bw_window_initialized by simp
qed

subsection \<open>\<open>copy_buffer\<close>\<close>

text \<open>
  Claim C4. For every window and every list \<open>buf\<close>, \<open>copy_buffer(buf)\<close> raises its
  \<open>IndexError\<close> exactly when \<open>len(buf)\<close> differs from \<open>width * height\<close>, and then the
  whole state, the buffer included, is as before; when the lengths agree it raises
  nothing and the buffer becomes \<open>buf\<close>, element for element.
\<close>

theorem copy_buffer_checks_length:
  "(fst (copy_buffer buf w) = Some IndexError \<longleftrightarrow> length buf \<noteq> width w * height w)
   \<and> (fst (copy_buffer buf w) = None \<longleftrightarrow> length buf = width w * height w)
   \<and> (length buf \<noteq> width w * height w \<longrightarrow> snd (copy_buffer buf w) = w)
   \<and> (length buf = width w * height w \<longrightarrow>
        snd (copy_buffer buf w) = w\<lparr>disp_buffer := buf\<rparr>
        \<and> disp_buffer (snd (copy_buffer buf w)) = buf)"
  by (simp add: copy_buffer_def)

theorem copy_buffer_checks_length_witness:
  "initialized bw_window
   \<and> copy_buffer [1, 2, 3] bw_window = (Some IndexError, bw_window)
   \<and> copy_buffer [1, 2, 3, 4, 5, 6, 7, 8] bw_window =
       (None, bw_window\<lparr>disp_buffer := [1, 2, 3, 4, 5, 6, 7, 8]\<rparr>)"
proof -
  have w: "width bw_window = 4" "height bw_window = 2"
    by (simp_all add: bw_window_def)
  have "copy_buffer [1, 2, 3] bw_window = (Some IndexError, bw_window)"
    using copy_buffer_checks_length[of "[1, 2, 3]" bw_window]
    by (simp add: w prod_eq_iff)
  moreover have "copy_buffer [1, 2, 3, 4, 5, 6, 7, 8] bw_window =
      (None, bw_window\<lparr>disp_buffer := [1, 2, 3, 4, 5, 6, 7, 8]\<rparr>)"
    using copy_buffer_checks_length[of "[1, 2, 3, 4, 5, 6, 7, 8]" bw_window]
    by (simp add: w prod_eq_iff)
  ultimately show ?thesis using bw_window_initialized by simp
qed

subsection \<open>\<open>initialize\<close>\<close>

text \<open>
  Claim C5, as stated, fails: with \<open>bw | high_res | monochrome\<close>, which has
  \<open>high_res\<close> together with a colour flag other than \<open>bw\<close>, \<open>initialize\<close> raises
  nothing; with \<open>high_res\<close> alone, which has no colour flag at all, it raises
  \<open>NotImplementedError\<close>.
\<close>

theorem initialize_accepts_color_with_bw:
  "high_res_with_color {bw, high_res, monochrome}
   \<and> fst (initialize sample_tables {bw, high_res, monochrome} (Window0 120 30)) = None
   \<and> \<not> high_res_with_color {high_res}
   \<and> fst (initialize sample_tables {high_res} (Window0 120 30)) = Some NotImplementedError"
  by (simp add: high_res_with_color_def truthy_def initialize_def Let_def)

text \<open>
  Claim C5, amended. For every requested mode, \<open>initialize\<close> raises
  \<open>NotImplementedError\<close> exactly when \<open>high_res\<close> is requested without \<open>bw\<close>, and
  raises nothing for every other mode. So a mode with \<open>high_res\<close> and a colour flag
  other than \<open>bw\<close> is rejected when \<open>bw\<close> is absent, and every mode without
  \<open>high_res\<close> is accepted.
\<close>

theorem initialize_rejects_high_res_without_bw:
  "(fst (initialize tables m w0) = Some NotImplementedError \<longleftrightarrow> high_res \<in> m \<and> bw \<notin> m)
   \<and> (fst (initialize tables m w0) = None \<longleftrightarrow> \<not> (high_res \<in> m \<and> bw \<notin> m))
   \<and> (high_res_with_color m \<and> bw \<notin> m \<longrightarrow>
        fst (initialize tables m w0) = Some NotImplementedError)
   \<and> (high_res \<notin> m \<longrightarrow> fst (initialize tables m w0) = None)"
  by (auto simp: initialize_def truthy_def Let_def high_res_with_color_def)

theorem initialize_rejects_high_res_without_bw_witness:
  "fst (initialize sample_tables {high_res, palette4} (Window0 120 30)) = Some NotImplementedError
   \<and> fst (initialize sample_tables {palette4} (Window0 120 30)) = None
   \<and> fst (initialize sample_tables {bw, high_res} (Window0 120 30)) = None"
proof -
  have "high_res_with_color {high_res, palette4}"
    by (simp add: high_res_with_color_def truthy_def)
  then show ?thesis
    using initialize_rejects_high_res_without_bw[of sample_tables "{high_res, palette4}" "Window0 120 30"]
      initialize_rejects_high_res_without_bw[of sample_tables "{palette4}" "Window0 120 30"]
      initialize_rejects_high_res_without_bw[of sample_tables "{bw, high_res}" "Window0 120 30"]
    by simp
qed

text \<open>
  Claim C6. When \<open>initialize\<close> accepts the mode, the window it leaves has
  \<open>width = terminal_width\<close> and \<open>height = terminal_height\<close> if \<open>high_res\<close> is not
  set, \<open>width = terminal_width * 2\<close> and \<open>height = terminal_height * 4\<close> if it is;
  the terminal size is the one it had; the buffer has exactly \<open>width * height\<close>
  entries and each of them is 0.
\<close>

theorem initialize_dimensions_and_buffer:
  assumes "initialize tables m w0 = (None, w)"
  shows "(high_res \<notin> m \<longrightarrow> width w = terminal_width w \<and> height w = terminal_height w)
       \<and> (high_res \<in> m \<longrightarrow> width w = terminal_width w * 2 \<and> height w = terminal_height w * 4)
       \<and> terminal_width w = terminal_width w0 \<and> terminal_height w = terminal_height w0
       \<and> length (disp_buffer w) = width w * height w
       \<and> (\<forall>i < length (disp_buffer w). disp_buffer w ! i = 0)
       \<and> disp_buffer w = replicate (width w * height w) 0"
proof -
  from assms have ok: "fst (initialize tables m w0) = None" and w: "w = snd (initialize tables m w0)"
    by simp_all
  note d = initialize_dims[OF ok, folded w]
  have a: "high_res \<notin> m \<longrightarrow> width w = terminal_width w \<and> height w = terminal_height w"
    using d(1-4) by simp
  have b: "high_res \<in> m \<longrightarrow> width w = terminal_width w * 2 \<and> height w = terminal_height w * 4"
    using d(1-4) by simp
  have c: "terminal_width w = terminal_width w0 \<and> terminal_height w = terminal_height w0"
    using d(3,4) by simp
  have e: "disp_buffer w = replicate (width w * height w) 0"
    by (rule d(6))
  have f: "length (disp_buffer w) = width w * height w"
    using e by (metis length_replicate)
  have g: "\<forall>i < length (disp_buffer w). disp_buffer w ! i = 0"
    using e by (metis length_replicate nth_replicate)
  show ?thesis using a b c e f g by blast
qed

lemma braille_window_initialize:
  "initialize sample_tables {bw, high_res} (Window0 1 1) = (None, braille_window)"
  by (simp add: initialize_def Window0_def braille_window_def truthy_def upt_rec)

theorem initialize_dimensions_and_buffer_witness:
  "initialize sample_tables {bw} (Window0 4 2) = (None, bw_window)
   \<and> width bw_window = 4 \<and> height bw_window = 2
   \<and> disp_buffer bw_window = replicate 8 0
   \<and> initialize sample_tables {bw, high_res} (Window0 1 1) = (None, braille_window)
   \<and> width braille_window = 2 \<and> height braille_window = 4
   \<and> disp_buffer braille_window = replicate 8 0"
proof -
  have t: "terminal_width bw_window = 4" "terminal_height bw_window = 2"
    "terminal_width braille_window = 1" "terminal_height braille_window = 1"
    by (simp_all add: bw_window_def braille_window_def)
  show ?thesis
    using initialize_dimensions_and_buffer[OF bw_window_initialize]
      initialize_dimensions_and_buffer[OF braille_window_initialize]
      bw_window_initialize braille_window_initialize
    by (simp add: t)
qed

lemma plot_keeps_dims:
  "width (snd (plot x y v w)) = width w \<and> height (snd (plot x y v w)) = height w
   \<and> length (disp_buffer (snd (plot x y v w))) = length (disp_buffer w)"
  by (auto simp: plot_def setitem_def split: sum.splits)

lemma update_only_prints:
  "snd (update w) = w \<or> (\<exists>s. snd (update w) = w\<lparr>stdout := stdout w @ [s]\<rparr>)"
  by (auto simp: update_def split: sum.splits)

subsection \<open>The buffer length\<close>

text \<open>
  Claim C9. A successful \<open>initialize\<close> establishes that the buffer length is
  \<open>width * height\<close>, and every operation keeps it: \<open>plot\<close> never changes the length,
  \<open>clear\<close> leaves a buffer of \<open>width * height\<close> entries, \<open>copy_buffer\<close> either
  raises and leaves the length as it was or installs a buffer of exactly
  \<open>width * height\<close> entries; none of them changes the width or the height. \<open>update\<close>
  and a second \<open>initialize\<close>, accepted or not, keep it as well.
\<close>

theorem buffer_length_invariant:
  "(fst (initialize tables m w0) = None \<longrightarrow> initialized (snd (initialize tables m w0)))
   \<and> (initialized w \<longrightarrow>
        initialized (snd (plot x y v w))
        \<and> length (disp_buffer (snd (plot x y v w))) = length (disp_buffer w)
        \<and> initialized (snd (clear w))
        \<and> length (disp_buffer (snd (clear w))) = width w * height w
        \<and> width (snd (clear w)) = width w \<and> height (snd (clear w)) = height w
        \<and> initialized (snd (copy_buffer buf w))
        \<and> (fst (copy_buffer buf w) \<noteq> None \<longrightarrow>
             length (disp_buffer (snd (copy_buffer buf w))) = length (disp_buffer w))
        \<and> (fst (copy_buffer buf w) = None \<longrightarrow>
             length (disp_buffer (snd (copy_buffer buf w))) = width w * height w)
        \<and> width (snd (copy_buffer buf w)) = width w
        \<and> height (snd (copy_buffer buf w)) = height w
        \<and> initialized (snd (update w))
        \<and> initialized (snd (initialize tables m w)))"
proof (intro conjI impI)
  assume "fst (initialize tables m w0) = None"
  from initialize_dims(6)[OF this]
  show "initialized (snd (initialize tables m w0))"
    by (simp add: initialized_def)
next
  assume i: "initialized w"
  show "initialized (snd (plot x y v w))"
    using i plot_keeps_dims[of x y v w] by (simp add: initialized_def)
  show "length (disp_buffer (snd (plot x y v w))) = length (disp_buffer w)"
    using plot_keeps_dims[of x y v w] by simp
  show "initialized (snd (clear w))" by (simp add: clear_def initialized_def)
  show "length (disp_buffer (snd (clear w))) = width w * height w" by (simp add: clear_def)
  show "width (snd (clear w)) = width w" by (simp add: clear_def)
  show "height (snd (clear w)) = height w" by (simp add: clear_def)
  show "initialized (snd (copy_buffer buf w))"
    using i by (simp add: copy_buffer_def initialized_def)
  show "length (disp_buffer (snd (copy_buffer buf w))) = length (disp_buffer w)"
    if "fst (copy_buffer buf w) \<noteq> None"
    using that by (simp add: copy_buffer_def split: if_splits)
  show "length (disp_buffer (snd (copy_buffer buf w))) = width w * height w"
    if "fst (copy_buffer buf w) = None"
    using that by (simp add: copy_buffer_def split: if_splits)
  show "width (snd (copy_buffer buf w)) = width w" by (simp add: copy_buffer_def)
  show "height (snd (copy_buffer buf w)) = height w" by (simp add: copy_buffer_def)
  show "initialized (snd (update w))"
    using i update_only_prints[of w] by (auto simp: initialized_def)
  show "initialized (snd (initialize tables m w))"
  proof (cases "fst (initialize tables m w) = None")
    case True
    from initialize_dims(6)[OF this] show ?thesis by (simp add: initialized_def)
  next
    case False
    then have "snd (initialize tables m w) = w\<lparr>mode := Some m\<rparr>"
      by (auto simp: initialize_def Let_def split: if_splits)
    with i show ?thesis by (simp add: initialized_def)
  qed
qed

theorem buffer_length_invariant_witness:
  "initialized (snd (initialize sample_tables {bw} (Window0 4 2)))
   \<and> initialized (snd (plot 1 1 7 bw_window))
   \<and> initialized (snd (clear bw_window))
   \<and> initialized (snd (copy_buffer [1, 2, 3] bw_window))
   \<and> initialized (snd (copy_buffer [1, 2, 3, 4, 5, 6, 7, 8] bw_window))"
proof -
  have "fst (initialize sample_tables {bw} (Window0 4 2)) = None"
    by (simp add: bw_window_initialize)
  then show ?thesis
    using buffer_length_invariant[of sample_tables "{bw}" "Window0 4 2" bw_window 1 1 7 "[1, 2, 3]"]
      buffer_length_invariant[of sample_tables "{bw}" "Window0 4 2" bw_window 1 1 7
        "[1, 2, 3, 4, 5, 6, 7, 8]"]
      bw_window_initialized
    by simp
qed

subsection \<open>\<open>update\<close>\<close>

text \<open>
  Claim C10. For every window, whatever its buffer holds and whether or not the
  rendering raises, \<open>update\<close> leaves the mode, the terminal width and height, the
  width and height, the buffer and the palette as they were: it only prints.
\<close>

theorem update_changes_only_stdout:
  "mode (snd (update w)) = mode w
   \<and> terminal_width (snd (update w)) = terminal_width w
   \<and> terminal_height (snd (update w)) = terminal_height w
   \<and> width (snd (update w)) = width w
   \<and> height (snd (update w)) = height w
   \<and> disp_buffer (snd (update w)) = disp_buffer w
   \<and> palette (snd (update w)) = palette w"
  using update_only_prints[of w] by auto

lemma update_output_bw:
  assumes "mode w = Some m" "bw \<in> m" "high_res \<notin> m"
  shows "update_output w = Inr (home @ map (\<lambda>x. if x = 0 then 32 else 0x2588) (disp_buffer w))"
proof -
  have "concat (map (\<lambda>x. if x = 0 then space else block) xs)
          = map (\<lambda>x. if x = 0 then 32 else 0x2588) xs" for xs :: "int list"
    by (induction xs) (simp_all add: space_def block_def ascii_def)
  with assms show ?thesis
    by (simp add: update_output_def truthy_def home_def)
qed

text \<open>
  Claim C8. In \<open>bw\<close> mode without \<open>high_res\<close>, for every buffer, \<open>update\<close> raises
  nothing and prints exactly one string: the cursor-home sequence \<open>ESC [ H\<close> followed
  by one character per pixel in buffer order, a space (code point 32) for a pixel that
  is 0 and the solid block U+2588 for any other; the string does not end in a line
  feed.
\<close>

theorem update_bw_one_glyph_per_pixel:
  assumes "mode w = Some m" "bw \<in> m" "high_res \<notin> m"
  shows "update w =
           (None, w\<lparr>stdout := stdout w @
              [home @ map (\<lambda>x. if x = 0 then 32 else 0x2588) (disp_buffer w)]\<rparr>)
         \<and> home = [0x1b, 0x5b, 0x48]
         \<and> length (home @ map (\<lambda>x. if x = 0 then 32 else 0x2588) (disp_buffer w))
             = 3 + length (disp_buffer w)
         \<and> last (home @ map (\<lambda>x. if x = 0 then 32 else 0x2588) (disp_buffer w)) \<noteq> 10"
proof -
  have h: "home = [0x1b, 0x5b, 0x48]" by (simp add: home_def ESC_def ascii_def)
  have "last (home @ map (\<lambda>x. if x = 0 then 32 else 0x2588) xs) \<noteq> 10" for xs :: "int list"
    by (cases xs rule: rev_cases) (simp_all add: h)
  then show ?thesis
    using update_output_bw[OF assms] by (simp add: update_def h)
qed

theorem update_bw_one_glyph_per_pixel_witness:
  "update (bw_window\<lparr>disp_buffer := [0, 1, 0, 0, 0, 0, 5, 0]\<rparr>) =
     (None, bw_window\<lparr>disp_buffer := [0, 1, 0, 0, 0, 0, 5, 0],
        stdout := [ESC # ascii ''[?25l'',
          [0x1b, 0x5b, 0x48, 32, 0x2588, 32, 32, 32, 32, 0x2588, 32]]\<rparr>)"
proof -
  have m: "mode (bw_window\<lparr>disp_buffer := [0, 1, 0, 0, 0, 0, 5, 0]\<rparr>) = Some {bw}"
    by (simp add: bw_window_def)
  show ?thesis
    using update_bw_one_glyph_per_pixel[OF m]
    by (simp add: bw_window_def)
qed

subsection \<open>The indexed modes\<close>

lemma prev_nonzero_Nil: "prev_nonzero d [] = d"
  by (simp add: prev_nonzero_def)

lemma prev_nonzero_Cons:
  "prev_nonzero d (r # xs) = prev_nonzero (if r \<noteq> 0 then r else d) xs"
  by (simp add: prev_nonzero_def)

lemma prev_nonzero_snoc:
  "prev_nonzero d (xs @ [r]) = (if r \<noteq> 0 then r else prev_nonzero d xs)"
  by (simp add: prev_nonzero_def)

lemma escape_at_0: "escape_at d (r # rs) 0 = (r \<noteq> 0 \<and> r \<noteq> d)"
  by (simp add: escape_at_def prev_nonzero_Nil)

lemma escape_at_Suc:
  "escape_at d (r # rs) (Suc i) = escape_at (if r \<noteq> 0 then r else d) rs i"
  by (simp add: escape_at_def prev_nonzero_Cons)

lemma upt_0_Suc_shift: "[0..<Suc n] = 0 # map Suc [0..<n]"
  by (simp add: upt_conv_Cons map_Suc_upt del: upt_Suc)

lemma indexed_piece_0:
  "indexed_piece pal d (r # rs) 0 =
     (if r = 0 then space else if r \<noteq> d then pal ! nat r @ block else block)"
  by (simp add: indexed_piece_def escape_at_0)

lemma indexed_piece_Suc:
  "indexed_piece pal d (r # rs) (Suc i) = indexed_piece pal (if r \<noteq> 0 then r else d) rs i"
  by (simp add: indexed_piece_def escape_at_Suc)

lemma indexed_loop_pieces:
  assumes "pal \<noteq> []"
  shows "indexed_loop pal vs prev out =
           Inr (out @ concat (map (indexed_piece pal prev (reduced pal vs)) [0..<length vs]))"
proof (induction vs arbitrary: prev out)
  case Nil
  show ?case by simp
next
  case (Cons v vs)
  let ?n = "int (length pal)"
  let ?r = "v mod ?n"
  from assms have n: "0 < ?n" by simp
  then have r: "0 \<le> ?r" "?r < ?n" by simp_all
  have red: "reduced pal (v # vs) = ?r # reduced pal vs"
    by (simp add: reduced_def)
  have pieces: "map (indexed_piece pal prev (reduced pal (v # vs))) [0..<Suc (length vs)] =
      indexed_piece pal prev (?r # reduced pal vs) 0 #
      map (indexed_piece pal (if ?r \<noteq> 0 then ?r else prev) (reduced pal vs)) [0..<length vs]"
    by (simp add: red upt_0_Suc_shift indexed_piece_Suc comp_def del: upt_Suc)
  have g: "getitem pal ?r = Inr (pal ! nat ?r)"
    using r by (simp add: getitem_def)
  show ?case
  proof (cases "?r = 0")
    case True
    then show ?thesis
      using assms by (simp add: pieces indexed_piece_0 Cons.IH del: upt_Suc)
  next
    case False
    show ?thesis
    proof (cases "?r = prev")
      case True
      with False show ?thesis
        using assms by (simp add: pieces indexed_piece_0 Cons.IH Let_def del: upt_Suc)
    next
      case neq: False
      with False show ?thesis
        using assms by (simp add: pieces indexed_piece_0 Cons.IH Let_def g del: upt_Suc)
    qed
  qed
qed

lemma prev_nonzero_run:
  assumes "i < j" "j \<le> length rs" "rs ! i \<noteq> 0"
    and "\<forall>k. i < k \<and> k < j \<longrightarrow> \<not> escape_at d rs k"
  shows "prev_nonzero d (take j rs) = rs ! i"
  using assms
proof (induction j)
  case 0
  then show ?case by simp
next
  case (Suc j)
  from Suc.prems have j: "j < length rs" by simp
  have t: "prev_nonzero d (take (Suc j) rs) =
             (if rs ! j \<noteq> 0 then rs ! j else prev_nonzero d (take j rs))"
    by (simp add: take_Suc_conv_app_nth[OF j] prev_nonzero_snoc)
  show ?case
  proof (cases "i = j")
    case True
    with Suc.prems t show ?thesis by simp
  next
    case False
    with Suc.prems have ij: "i < j" by simp
    have "prev_nonzero d (take j rs) = rs ! i"
      using Suc.IH ij j Suc.prems by simp
    moreover have "\<not> escape_at d rs j"
      using Suc.prems ij by simp
    ultimately show ?thesis
      using t by (auto simp: escape_at_def)
  qed
qed

lemma consecutive_escapes_differ:
  assumes "i < j" "j < length rs" "escape_at d rs i" "escape_at d rs j"
    and "\<forall>k. i < k \<and> k < j \<longrightarrow> \<not> escape_at d rs k"
  shows "rs ! i \<noteq> rs ! j"
proof -
  from assms(3) have "rs ! i \<noteq> 0" by (simp add: escape_at_def)
  with prev_nonzero_run[of i j rs d] assms
  have "prev_nonzero d (take j rs) = rs ! i" by simp
  with assms(4) show ?thesis by (simp add: escape_at_def)
qed

lemma update_output_indexed:
  assumes "mode w = Some m" "bw \<notin> m" "m \<inter> {monochrome, palette4, palette8} \<noteq> {}"
    "palette w \<noteq> []"
  shows "update_output w =
           Inr (home @ concat (map (indexed_piece (palette w) (- 1)
                  (reduced (palette w) (disp_buffer w))) [0..<length (disp_buffer w)]))"
proof -
  have "{monochrome} \<union> {palette4} \<union> {palette8} = {monochrome, palette4, palette8}"
    by auto
  with assms show ?thesis
    by (simp add: update_output_def truthy_def home_def indexed_loop_pieces)
qed

text \<open>
  Claim C7. In an indexed mode (\<open>bw\<close> not set, one of \<open>monochrome\<close>, \<open>palette4\<close>,
  \<open>palette8\<close> set) with a palette that is not empty, for every buffer, \<open>update\<close>
  raises nothing and prints the cursor-home sequence followed, pixel by pixel, by: a
  space when the value modulo the palette length is 0; the palette string of that
  index and a block glyph when the index is nonzero and differs from the previous
  nonzero index of the frame (\<open>-1\<close> before the first); a bare block glyph when it
  equals it. Two escapes with no escape between them are never for the same index.
\<close>

theorem update_indexed_elides_repeated_escape:
  assumes "mode w = Some m" "bw \<notin> m" "m \<inter> {monochrome, palette4, palette8} \<noteq> {}"
    "palette w \<noteq> []"
  shows "update w =
           (None, w\<lparr>stdout := stdout w @
              [home @ concat (map (indexed_piece (palette w) (- 1)
                  (reduced (palette w) (disp_buffer w))) [0..<length (disp_buffer w)])]\<rparr>)
       \<and> (\<forall>i j. i < j \<and> j < length (disp_buffer w)
              \<and> escape_at (- 1) (reduced (palette w) (disp_buffer w)) i
              \<and> escape_at (- 1) (reduced (palette w) (disp_buffer w)) j
              \<and> (\<forall>k. i < k \<and> k < j \<longrightarrow> \<not> escape_at (- 1) (reduced (palette w) (disp_buffer w)) k)
            \<longrightarrow> reduced (palette w) (disp_buffer w) ! i \<noteq> reduced (palette w) (disp_buffer w) ! j)"
proof (intro conjI allI impI)
  show "update w =
           (None, w\<lparr>stdout := stdout w @
              [home @ concat (map (indexed_piece (palette w) (- 1)
                  (reduced (palette w) (disp_buffer w))) [0..<length (disp_buffer w)])]\<rparr>)"
    by (simp add: update_def update_output_indexed[OF assms])
next
  fix i j
  let ?rs = "reduced (palette w) (disp_buffer w)"
  assume a: "i < j \<and> j < length (disp_buffer w) \<and> escape_at (- 1) ?rs i \<and> escape_at (- 1) ?rs j
     \<and> (\<forall>k. i < k \<and> k < j \<longrightarrow> \<not> escape_at (- 1) ?rs k)"
  then have "j < length ?rs" by (simp add: reduced_def)
  with a show "?rs ! i \<noteq> ?rs ! j"
    by (intro consecutive_escapes_differ[of i j ?rs "- 1"]) simp_all
qed

lemma palette4_pieces:
  "map (indexed_piece [p0, p1, p2, p3] (- 1) [2, 2, 0, 3]) [0, 1, 2, 3]
     = [p2 @ block, block, space, p3 @ block]"
  by (simp add: indexed_piece_def escape_at_def prev_nonzero_def)

theorem update_indexed_elides_repeated_escape_witness:
  "update palette4_window =
     (None, palette4_window\<lparr>stdout := [ESC # ascii ''[?25l'',
        home @ ascii ''b2'' @ block @ block @ space @ ascii ''b3'' @ block]\<rparr>)
   \<and> escape_at (- 1) [2, 2, 0, 3] 0 \<and> \<not> escape_at (- 1) [2, 2, 0, 3] 1
   \<and> \<not> escape_at (- 1) [2, 2, 0, 3] 2 \<and> escape_at (- 1) [2, 2, 0, 3] 3
   \<and> [2, 2, 0, 3 :: int] ! 0 \<noteq> [2, 2, 0, 3] ! 3"
proof -
  have m: "mode palette4_window = Some {palette4}"
    and b: "{palette4} \<inter> {monochrome, palette4, palette8} \<noteq> {}" "bw \<notin> {palette4}"
    and p: "palette palette4_window \<noteq> []"
    by (simp_all add: palette4_window_def)
  have r: "reduced (palette palette4_window) (disp_buffer palette4_window) = [2, 2, 0, 3]"
    by (simp add: palette4_window_def reduced_def)
  have u: "[0..<length (disp_buffer palette4_window)] = [0, 1, 2, 3]"
    by (simp add: palette4_window_def upt_rec)
  have q: "palette palette4_window = [ascii ''b0'', ascii ''b1'', ascii ''b2'', ascii ''b3'']"
    "stdout palette4_window = [ESC # ascii ''[?25l'']"
    "length (disp_buffer palette4_window) = 4"
    by (simp_all add: palette4_window_def)
  have e: "escape_at (- 1) [2, 2, 0, 3] 0" "\<not> escape_at (- 1) [2, 2, 0, 3] 1"
    "\<not> escape_at (- 1) [2, 2, 0, 3] 2" "escape_at (- 1) [2, 2, 0, 3] 3"
    by (simp_all add: escape_at_def prev_nonzero_def)
  have between: "\<forall>k. 0 < k \<and> k < 3 \<longrightarrow> \<not> escape_at (- 1) [2, 2, 0, 3] k"
  proof (intro allI impI)
    fix k :: nat
    assume "0 < k \<and> k < 3"
    then have "k = 1 \<or> k = 2" by auto
    with e show "\<not> escape_at (- 1) [2, 2, 0, 3] k" by auto
  qed
  note t = update_indexed_elides_repeated_escape[OF m b(2) b(1) p, unfolded r u]
  from t have "update palette4_window =
     (None, palette4_window\<lparr>stdout := stdout palette4_window @
        [home @ concat (map (indexed_piece (palette palette4_window) (- 1) [2, 2, 0, 3])
           [0, 1, 2, 3])]\<rparr>)"
    by (rule conjunct1)
  then have first: "update palette4_window =
     (None, palette4_window\<lparr>stdout := [ESC # ascii ''[?25l'',
        home @ ascii ''b2'' @ block @ block @ space @ ascii ''b3'' @ block]\<rparr>)"
    unfolding q palette4_pieces by simp
  from t have "0 < (3::nat) \<and> 3 < length (disp_buffer palette4_window)
      \<and> escape_at (- 1) [2, 2, 0, 3] 0 \<and> escape_at (- 1) [2, 2, 0, 3] 3
      \<and> (\<forall>k. 0 < k \<and> k < 3 \<longrightarrow> \<not> escape_at (- 1) [2, 2, 0, 3] k)
    \<longrightarrow> [2, 2, 0, 3 :: int] ! 0 \<noteq> [2, 2, 0, 3] ! 3"
    by blast
  with e between q(3) have "[2, 2, 0, 3 :: int] ! 0 \<noteq> [2, 2, 0, 3] ! 3"
    by simp
  with first e show ?thesis by blast
qed

subsection \<open>The full-colour mode\<close>

lemma rgb_piece_0:
  "rgb_piece d (r # rs) 0 =
     (if r = 0 then space
      else if r \<noteq> d then truecolor (drop_bit 16 r) (drop_bit 8 r AND 0xff) (r AND 0xff)
      else block)"
  by (simp add: rgb_piece_def escape_at_0)

lemma rgb_piece_Suc:
  "rgb_piece d (r # rs) (Suc i) = rgb_piece (if r \<noteq> 0 then r else d) rs i"
  by (simp add: rgb_piece_def escape_at_Suc)

lemma rgb_loop_pieces:
  "rgb_loop vs prev out = out @ concat (map (rgb_piece prev vs) [0..<length vs])"
proof (induction vs arbitrary: prev out)
  case Nil
  show ?case by simp
next
  case (Cons v vs)
  have pieces: "map (rgb_piece prev (v # vs)) [0..<Suc (length vs)] =
      rgb_piece prev (v # vs) 0 # map (rgb_piece (if v \<noteq> 0 then v else prev) vs) [0..<length vs]"
    by (simp add: upt_0_Suc_shift rgb_piece_Suc comp_def del: upt_Suc)
  show ?case
    by (simp add: pieces rgb_piece_0 Cons.IH Let_def del: upt_Suc)
qed

lemma update_output_rgb:
  assumes "mode w = Some m" "bw \<notin> m" "m \<inter> {monochrome, palette4, palette8} = {}"
  shows "update_output w =
           Inr (home @ concat (map (rgb_piece (- 1) (disp_buffer w)) [0..<length (disp_buffer w)]))"
proof -
  have "{monochrome} \<union> {palette4} \<union> {palette8} = {monochrome, palette4, palette8}"
    by auto
  with assms show ?thesis
    by (simp add: update_output_def truthy_def home_def rgb_loop_pieces)
qed

lemma red_in_24_bits:
  fixes v :: int
  assumes "0 \<le> v" "v < 2 ^ 24"
  shows "drop_bit 16 v = red_spec v" and "0 \<le> drop_bit 16 v" and "drop_bit 16 v \<le> 255"
proof -
  have d: "drop_bit 16 v = v div 2 ^ 16" by (simp add: drop_bit_eq_div)
  from assms show lo: "0 \<le> drop_bit 16 v" by (simp add: d)
  from assms have "v div 2 ^ 16 < 2 ^ 8"
    by (simp add: div_less_iff_less_mult algebra_simps)
  then have hi: "drop_bit 16 v < 2 ^ 8" by (simp add: d)
  then show "drop_bit 16 v \<le> 255" by simp
  have "drop_bit 16 v AND mask 8 = take_bit 8 (drop_bit 16 v)"
    by (simp add: take_bit_eq_mask)
  also have "\<dots> = drop_bit 16 v"
    using lo hi by (simp add: take_bit_int_eq_self)
  finally show "drop_bit 16 v = red_spec v"
    by (simp add: red_spec_def mask_eq_exp_minus_1)
qed

lemma truecolor_red: "truecolor 255 0 0 =
    [27, 91, 51, 56, 59, 50, 59, 50, 53, 53, 59, 48, 59, 48, 109, 0x2588]"
  by (simp add: truecolor_def ESC_def ascii_def str_int_def digits.simps block_def)

lemma truecolor_256: "truecolor 256 0 0 =
    [27, 91, 51, 56, 59, 50, 59, 50, 53, 54, 59, 48, 59, 48, 109, 0x2588]"
  by (simp add: truecolor_def ESC_def ascii_def str_int_def digits.simps block_def)

lemma truecolor_black: "truecolor 0 0 0 =
    [27, 91, 51, 56, 59, 50, 59, 48, 59, 48, 59, 48, 109, 0x2588]"
  by (simp add: truecolor_def ESC_def ascii_def str_int_def digits.simps block_def)

lemma rgb_window_pieces:
  "map (rgb_piece (- 1) [0xFF0000, 0xFF0000, 0, 0x1000000]) [0, 1, 2, 3]
     = [truecolor 255 0 0, block, space, truecolor 256 0 0]"
  by (simp add: rgb_piece_def escape_at_def prev_nonzero_def drop_bit_eq_div)

text \<open>
  Claim C2, as stated, fails: for the pixel value \<open>0x1000000\<close> the escape sequence
  \<open>update\<close> prints carries red 256, where \<open>value >> 16 & 0xFF\<close> is 0.
\<close>

theorem update_rgb_red_beyond_24_bits:
  "update (rgb_window\<lparr>disp_buffer := [0, 0, 0, 0x1000000]\<rparr>) =
     (None, rgb_window\<lparr>disp_buffer := [0, 0, 0, 0x1000000],
        stdout := [ESC # ascii ''[?25l'', home @ space @ space @ space @ truecolor 256 0 0]\<rparr>)
   \<and> red_spec 0x1000000 = 0
   \<and> truecolor 256 0 0 \<noteq> truecolor (red_spec 0x1000000) 0 0"
proof -
  have r: "red_spec 0x1000000 = 0"
    by (simp add: red_spec_def drop_bit_eq_div)
  have l: "rgb_loop [0, 0, 0, 0x1000000] (- 1) out
             = out @ space @ space @ space @ truecolor 256 0 0" for out
    by (simp add: drop_bit_eq_div)
  have u: "update (rgb_window\<lparr>disp_buffer := [0, 0, 0, 0x1000000]\<rparr>) =
     (None, rgb_window\<lparr>disp_buffer := [0, 0, 0, 0x1000000],
        stdout := [ESC # ascii ''[?25l'', home @ space @ space @ space @ truecolor 256 0 0]\<rparr>)"
    by (simp add: update_def update_output_def rgb_window_def truthy_def l home_def)
  show ?thesis
    by (simp add: u r truecolor_256 truecolor_black)
qed

text \<open>
  Claim C2, amended. In full-colour mode (none of \<open>bw\<close>, \<open>monochrome\<close>, \<open>palette4\<close>,
  \<open>palette8\<close> set), for every buffer, \<open>update\<close> raises nothing and prints the
  cursor-home sequence followed, pixel by pixel, by: a space for the value 0; for a
  nonzero value that differs from the previous nonzero value of the frame (\<open>-1\<close>
  before the first), the sequence \<open>ESC [38;2;r;g;b m\<close> and a block glyph with
  \<open>r = value >> 16\<close>, not masked, \<open>g = value >> 8 & 0xFF\<close> and \<open>b = value & 0xFF\<close>;
  a bare block glyph otherwise. For \<open>0 \<le> value < 2^24\<close> the red so decoded equals
  \<open>value >> 16 & 0xFF\<close> and lies in 0..255; the pixel \<open>0xFF0000\<close> gives red 255,
  green 0, blue 0.
\<close>

theorem update_rgb_decodes_channels:
  assumes "mode w = Some m" "bw \<notin> m" "m \<inter> {monochrome, palette4, palette8} = {}"
  shows "update w =
           (None, w\<lparr>stdout := stdout w @
              [home @ concat (map (rgb_piece (- 1) (disp_buffer w)) [0..<length (disp_buffer w)])]\<rparr>)
       \<and> (\<forall>v. 0 \<le> v \<and> v < 2 ^ 24 \<longrightarrow>
              drop_bit 16 v = red_spec v \<and> 0 \<le> drop_bit 16 v \<and> drop_bit 16 v \<le> 255)
       \<and> rgb_piece (- 1) [0xFF0000] 0 = truecolor 255 0 0"
proof (intro conjI allI impI)
  show "update w =
           (None, w\<lparr>stdout := stdout w @
              [home @ concat (map (rgb_piece (- 1) (disp_buffer w)) [0..<length (disp_buffer w)])]\<rparr>)"
    by (simp add: update_def update_output_rgb[OF assms])
  show "rgb_piece (- 1) [0xFF0000] 0 = truecolor 255 0 0"
    by (simp add: rgb_piece_0 drop_bit_eq_div)
next
  fix v :: int
  assume "0 \<le> v \<and> v < 2 ^ 24"
  then show "drop_bit 16 v = red_spec v" "0 \<le> drop_bit 16 v" "drop_bit 16 v \<le> 255"
    using red_in_24_bits[of v] by simp_all
qed

theorem update_rgb_decodes_channels_witness:
  "update rgb_window =
     (None, rgb_window\<lparr>stdout := [ESC # ascii ''[?25l'',
        home @ truecolor 255 0 0 @ block @ space @ truecolor 256 0 0]\<rparr>)
   \<and> drop_bit 16 (0xFF0000 :: int) = red_spec 0xFF0000
   \<and> drop_bit 16 (0xFF0000 :: int) = 255
   \<and> truecolor 255 0 0 =
       [27, 91, 51, 56, 59, 50, 59, 50, 53, 53, 59, 48, 59, 48, 109, 0x2588]"
proof -
  have m: "mode rgb_window = Some {}" and b: "bw \<notin> {}"
    "{} \<inter> {monochrome, palette4, palette8} = {}"
    by (simp_all add: rgb_window_def)
  have q: "disp_buffer rgb_window = [0xFF0000, 0xFF0000, 0, 0x1000000]"
    "stdout rgb_window = [ESC # ascii ''[?25l'']"
    by (simp_all add: rgb_window_def)
  have u: "[0..<length [0xFF0000, 0xFF0000, 0, 0x1000000 :: int]] = [0, 1, 2, 3]"
    by (simp add: upt_rec)
  note t = update_rgb_decodes_channels[OF m b, unfolded q u rgb_window_pieces]
  from t have first: "update rgb_window =
     (None, rgb_window\<lparr>stdout := [ESC # ascii ''[?25l'',
        home @ truecolor 255 0 0 @ block @ space @ truecolor 256 0 0]\<rparr>)"
    by simp
  from t have "0 \<le> (0xFF0000 :: int) \<and> (0xFF0000 :: int) < 2 ^ 24 \<longrightarrow>
      drop_bit 16 (0xFF0000 :: int) = red_spec 0xFF0000"
    by blast
  then have second: "drop_bit 16 (0xFF0000 :: int) = red_spec 0xFF0000"
    by simp
  have third: "drop_bit 16 (0xFF0000 :: int) = 255"
    by (simp add: drop_bit_eq_div)
  show ?thesis
    using first second third truecolor_red by blast
qed

subsection \<open>The braille mode\<close>

lemma getitem_nat: "i < length xs \<Longrightarrow> getitem xs (int i) = Inr (xs ! i)"
  by (simp add: getitem_def)

lemma cell_lt:
  fixes x y w h :: nat
  assumes "x < w" "y < h"
  shows "x + y * w < w * h"
proof -
  from assms have "Suc y * w \<le> h * w" by (intro mult_le_mono1) simp
  with assms show ?thesis by (simp add: algebra_simps)
qed

lemma tile_cell:
  assumes len: "length buf = w * h" and bits: "binary buf"
    and x: "x < w" and y: "y < h"
  shows "getitem buf (int (x + y * w)) = Inr (int (lit buf w x y))"
proof -
  from cell_lt[OF x y] len have i: "x + y * w < length buf" by simp
  then have "buf ! (x + y * w) \<in> set buf" by simp
  with bits have "buf ! (x + y * w) = 0 \<or> buf ! (x + y * w) = 1"
    by (simp add: binary_def list_all_iff)
  then have "buf ! (x + y * w) = int (lit buf w x y)"
    by (auto simp: lit_def)
  with getitem_nat[OF i] show ?thesis by simp
qed

lemma braille_at_bits:
  assumes len: "length buf = w * h" and bits: "binary buf"
    and x: "xo + 1 < w" and y: "yo + 3 < h"
  shows "braille_at buf w (xo + yo * w) = Inr (int (tile_byte buf w xo yo))"
proof -
  note c = tile_cell[OF len bits]
  have g00: "getitem buf (int (xo + yo * w)) = Inr (int (lit buf w xo yo))"
    using x y by (intro c) simp_all
  have "getitem buf (int ((xo + 1) + yo * w)) = Inr (int (lit buf w (xo + 1) yo))"
    using x y by (intro c) simp_all
  then have g10: "getitem buf (int (xo + yo * w + 1)) = Inr (int (lit buf w (xo + 1) yo))"
    by (simp add: algebra_simps)
  have "getitem buf (int (xo + (yo + 1) * w)) = Inr (int (lit buf w xo (yo + 1)))"
    using x y by (intro c) simp_all
  then have g01: "getitem buf (int (xo + yo * w + w)) = Inr (int (lit buf w xo (yo + 1)))"
    by (simp add: algebra_simps)
  have "getitem buf (int ((xo + 1) + (yo + 1) * w)) = Inr (int (lit buf w (xo + 1) (yo + 1)))"
    using x y by (intro c) simp_all
  then have g11: "getitem buf (int (xo + yo * w + 1 + w)) = Inr (int (lit buf w (xo + 1) (yo + 1)))"
    by (simp add: algebra_simps)
  have "getitem buf (int (xo + (yo + 2) * w)) = Inr (int (lit buf w xo (yo + 2)))"
    using x y by (intro c) simp_all
  then have g02: "getitem buf (int (xo + yo * w + w * 2)) = Inr (int (lit buf w xo (yo + 2)))"
    by (simp add: algebra_simps)
  have "getitem buf (int ((xo + 1) + (yo + 2) * w)) = Inr (int (lit buf w (xo + 1) (yo + 2)))"
    using x y by (intro c) simp_all
  then have g12: "getitem buf (int (xo + yo * w + 1 + w * 2)) = Inr (int (lit buf w (xo + 1) (yo + 2)))"
    by (simp add: algebra_simps)
  have "getitem buf (int (xo + (yo + 3) * w)) = Inr (int (lit buf w xo (yo + 3)))"
    using x y by (intro c) simp_all
  then have g03: "getitem buf (int (xo + yo * w + w * 3)) = Inr (int (lit buf w xo (yo + 3)))"
    by (simp add: algebra_simps)
  have "getitem buf (int ((xo + 1) + (yo + 3) * w)) = Inr (int (lit buf w (xo + 1) (yo + 3)))"
    using x y by (intro c) simp_all
  then have g13: "getitem buf (int (xo + yo * w + 1 + w * 3)) = Inr (int (lit buf w (xo + 1) (yo + 3)))"
    by (simp add: algebra_simps)
  show ?thesis
    unfolding braille_at_def g00 g10 g01 g11 g02 g12 g03 g13
    by (simp add: ebind_def tile_byte_def push_bit_eq_mult)
qed

lemma lit_le_1: "lit buf w x y \<le> 1"
  by (simp add: lit_def)

lemma tile_byte_le_255: "tile_byte buf w xo yo \<le> 255"
proof -
  note l = lit_le_1[of buf w]
  show ?thesis
    unfolding tile_byte_def
    using l[of xo yo] l[of "xo + 1" yo] l[of xo "yo + 1"] l[of "xo + 1" "yo + 1"]
      l[of xo "yo + 2"] l[of "xo + 1" "yo + 2"] l[of xo "yo + 3"] l[of "xo + 1" "yo + 3"]
    by simp
qed

lemma chr_braille: "chr (int (tile_byte buf w xo yo) + 0x2800) = Inr (0x2800 + tile_byte buf w xo yo)"
  using tile_byte_le_255[of buf w xo yo] by (simp add: chr_def nat_add_distrib)

lemma braille_row_bits:
  assumes len: "length buf = w * h" and bits: "binary buf" and y: "yo + 3 < h"
    and xs: "\<forall>tx \<in> set txs. tx * 2 + 1 < w"
  shows "braille_row buf w yo (map (\<lambda>i. i * 2) txs) out =
           Inr (out @ map (\<lambda>tx. 0x2800 + tile_byte buf w (tx * 2) yo) txs)"
  using xs
proof (induction txs arbitrary: out)
  case Nil
  show ?case by simp
next
  case (Cons tx txs)
  then have "tx * 2 + 1 < w" by simp
  from braille_at_bits[OF len bits this y]
  show ?case using Cons by (simp add: chr_braille)
qed

lemma braille_rows_bits:
  assumes len: "length buf = w * h" and bits: "binary buf" and w: "even w"
    and ys: "\<forall>ty \<in> set tys. ty * 4 + 3 < h"
  shows "braille_rows buf w (map (\<lambda>i. i * 4) tys) out =
           Inr (out @ concat (map (\<lambda>ty. map (\<lambda>tx. 0x2800 + tile_byte buf w (tx * 2) (ty * 4))
                  [0..<w div 2]) tys))"
  using ys
proof (induction tys arbitrary: out)
  case Nil
  show ?case by simp
next
  case (Cons ty tys)
  then have y: "ty * 4 + 3 < h" by simp
  from w have r: "range_step w 2 = map (\<lambda>i. i * 2) [0..<w div 2]"
    by (auto simp: range_step_def elim!: evenE)
  from w have "\<forall>tx \<in> set [0..<w div 2]. tx * 2 + 1 < w"
    by (auto elim!: evenE)
  from braille_row_bits[OF len bits y this]
  show ?case using Cons by (simp add: r)
qed

lemma update_output_braille:
  assumes "mode w = Some m" "bw \<in> m" "high_res \<in> m" "initialized w"
    "even (width w)" "4 dvd height w" "binary (disp_buffer w)"
  shows "update_output w = Inr (home @ braille_body (disp_buffer w) (width w) (height w))"
proof -
  from assms(6) have r: "range_step (height w) 4 = map (\<lambda>i. i * 4) [0..<height w div 4]"
    by (auto simp: range_step_def elim!: dvdE)
  from assms(6) have ys: "\<forall>ty \<in> set [0..<height w div 4]. ty * 4 + 3 < height w"
    by (auto elim!: dvdE)
  from assms(4) have len: "length (disp_buffer w) = width w * height w"
    by (simp add: initialized_def)
  from braille_rows_bits[OF len assms(7) assms(5) ys] assms(1-3)
  show ?thesis
    by (simp add: update_output_def truthy_def r braille_body_def home_def)
qed

lemma length_braille_body: "length (braille_body buf w h) = (h div 4) * (w div 2)"
  by (simp add: braille_body_def length_concat comp_def sum_list_triv)

lemma initialize_high_res_dims:
  assumes "initialize tables m w0 = (None, w)" "high_res \<in> m"
  shows "even (width w)" and "4 dvd height w"
proof -
  from assms(1) have ok: "fst (initialize tables m w0) = None"
    and w: "w = snd (initialize tables m w0)" by simp_all
  from initialize_dims(1,2)[OF ok, folded w] assms(2)
  show "even (width w)" and "4 dvd height w" by simp_all
qed

text \<open>
  On a window initialized in \<open>bw | high_res\<close> mode whose buffer holds only 0 and 1,
  \<open>update\<close> prints the cursor-home sequence and one braille character per tile of 2
  by 4 pixels, packed as the specification says: \<open>(height / 4) * (width / 2)\<close>
  characters, one per terminal cell.
\<close>

lemma update_braille_binary:
  assumes init: "initialize tables m w0 = (None, w1)" and m: "bw \<in> m" "high_res \<in> m"
    and copy: "copy_buffer buf w1 = (None, w)" and bits: "binary buf"
  shows "update w =
           (None, w\<lparr>stdout := stdout w @ [home @ braille_body buf (width w) (height w)]\<rparr>)"
    and "length (braille_body buf (width w) (height w)) = (height w div 4) * (width w div 2)"
    and "(height w div 4) * (width w div 2) = terminal_height w * terminal_width w"
proof -
  from init have ok: "fst (initialize tables m w0) = None"
    and w1: "w1 = snd (initialize tables m w0)" by simp_all
  note d = initialize_dims[OF ok, folded w1]
  from copy have len: "length buf = width w1 * height w1" and w: "w = w1\<lparr>disp_buffer := buf\<rparr>"
    by (simp_all add: copy_buffer_def split: if_splits)
  have mode: "mode w = Some m" by (simp add: w d(5))
  have i: "initialized w" by (simp add: w initialized_def len)
  have e: "even (width w)" "4 dvd height w"
    using initialize_high_res_dims[OF init m(2)] by (simp_all add: w)
  have b: "binary (disp_buffer w)" using bits by (simp add: w)
  from update_output_braille[OF mode m i e b]
  show "update w =
          (None, w\<lparr>stdout := stdout w @ [home @ braille_body buf (width w) (height w)]\<rparr>)"
    by (simp add: update_def) (simp add: w)
  show "length (braille_body buf (width w) (height w)) = (height w div 4) * (width w div 2)"
    by (rule length_braille_body)
  show "(height w div 4) * (width w div 2) = terminal_height w * terminal_width w"
    using d(1-4) m(2) by (simp add: w)
qed

lemma braille_tiles_of_claim:
  "braille_body [0, 0, 0, 0, 0, 0, 0, 0] 2 4 = [0x2800]"
  "braille_body [1, 0, 0, 0, 0, 0, 0, 0] 2 4 = [0x2801]"
  "braille_body [0, 0, 0, 0, 0, 0, 0, 1] 2 4 = [0x2880]"
  "update_output (braille_window\<lparr>disp_buffer := [0, 0, 0, 0, 0, 0, 0, 0]\<rparr>) = Inr (home @ [0x2800])"
  "update_output (braille_window\<lparr>disp_buffer := [1, 0, 0, 0, 0, 0, 0, 0]\<rparr>) = Inr (home @ [0x2801])"
  "update_output (braille_window\<lparr>disp_buffer := [0, 0, 0, 0, 0, 0, 0, 1]\<rparr>) = Inr (home @ [0x2880])"
  by (simp_all add: braille_body_def tile_byte_def lit_def update_output_def braille_window_def
      truthy_def range_step_def braille_at_def ebind_def getitem_def chr_def home_def upt_rec)

text \<open>
  Claim C1. The packing uses the truthiness of each pixel, for every buffer. The code
  adds the pixel values themselves, shifted: after \<open>plot(1, 1, 2)\<close> on one empty tile,
  \<open>update\<close> prints U+2820 (bit 5, the dot of pixel (1,2)), where the packing of the
  claim gives U+2810 (bit 4, the dot of pixel (1,1)).
\<close>

theorem update_braille_adds_raw_values:
  "plot 1 1 2 braille_window = (None, braille_window\<lparr>disp_buffer := [0, 0, 0, 2, 0, 0, 0, 0]\<rparr>)
   \<and> update (braille_window\<lparr>disp_buffer := [0, 0, 0, 2, 0, 0, 0, 0]\<rparr>) =
       (None, braille_window\<lparr>disp_buffer := [0, 0, 0, 2, 0, 0, 0, 0],
          stdout := [ESC # ascii ''[?25l'', home @ [0x2820]]\<rparr>)
   \<and> braille_body [0, 0, 0, 2, 0, 0, 0, 0] 2 4 = [0x2810]"
proof -
  have p: "plot 1 1 2 braille_window =
      (None, braille_window\<lparr>disp_buffer := [0, 0, 0, 2, 0, 0, 0, 0]\<rparr>)"
    by (simp add: plot_def setitem_def braille_window_def)
  have o: "update_output (braille_window\<lparr>disp_buffer := [0, 0, 0, 2, 0, 0, 0, 0]\<rparr>)
      = Inr (home @ [0x2820])"
    by (simp add: update_output_def braille_window_def truthy_def range_step_def
        braille_at_def ebind_def getitem_def chr_def home_def upt_rec)
  have u: "update (braille_window\<lparr>disp_buffer := [0, 0, 0, 2, 0, 0, 0, 0]\<rparr>) =
       (None, braille_window\<lparr>disp_buffer := [0, 0, 0, 2, 0, 0, 0, 0],
          stdout := [ESC # ascii ''[?25l'', home @ [0x2820]]\<rparr>)"
    by (simp add: update_def o) (simp add: braille_window_def)
  have b: "braille_body [0, 0, 0, 2, 0, 0, 0, 0] 2 4 = [0x2810]"
    by (simp add: braille_body_def tile_byte_def lit_def)
  show ?thesis using p u b by blast
qed

end
